theory Spec2Isabelle
  imports Complex_Main
begin

section \<open>Strings and exceptions\<close>

text \<open>
  A Python \<open>str\<close> is a sequence of Unicode code points, and \<open>len\<close> counts code
  points; a string is therefore modelled as a list of code points. \<open>ascii\<close> reads
  an ASCII literal of the source as such a list.
\<close>

type_synonym pystr = "nat list"

definition ascii :: "string \<Rightarrow> pystr" where
  "ascii s = map of_char s"

datatype py_error = ValueError | IndexError | ZeroDivisionError

section \<open>ANSIColor and Color: the escape sequences\<close>

definition ESC :: nat where
  "ESC = 27"

text \<open>\<open>'\033[' + p + 'm'\<close>: every constant of \<open>ANSIColor\<close> has this shape.\<close>

definition sgr :: "pystr \<Rightarrow> pystr" where
  "sgr p = ESC # 91 # p @ [109]"

definition RESET :: pystr where
  "RESET = sgr (ascii ''0'')"

definition BOLD :: pystr where
  "BOLD = sgr (ascii ''1'')"

definition DIM :: pystr where
  "DIM = sgr (ascii ''2'')"

definition RED :: pystr where
  "RED = sgr (ascii ''31'')"

definition CYAN :: pystr where
  "CYAN = sgr (ascii ''36'')"









subsection \<open>Formatting an integer, as an f-string does\<close>

fun digits10 :: "nat \<Rightarrow> pystr" where
  "digits10 n = (if n < 10 then [48 + n] else digits10 (n div 10) @ [48 + n mod 10])"

declare digits10.simps [simp del]

definition str_int :: "int \<Rightarrow> pystr" where
  "str_int i = (if i < 0 then 45 # digits10 (nat (- i)) else digits10 (nat i))"

text \<open>\<open>ANSIColor.fg_rgb\<close>: \<open>f'\033[38;2;{r};{g};{b}m'\<close>; the channels are not range-checked.\<close>

definition fg_rgb :: "int \<Rightarrow> int \<Rightarrow> int \<Rightarrow> pystr" where
  "fg_rgb r g b =
     ESC # ascii ''[38;2;'' @ str_int r @ ascii '';'' @ str_int g @ ascii '';'' @ str_int b @ ascii ''m''"

subsection \<open>\<open>int(s, 16)\<close>\<close>

text \<open>
  Python's \<open>int(s, 16)\<close>: surrounding whitespace is dropped, then an optional sign, an
  optional \<open>0x\<close>/\<open>0X\<close> prefix (which may be followed by one underscore), then hex
  digits with single underscores between them; anything else raises \<open>ValueError\<close>.
  The model covers the code points below 128 together with the non-ASCII white space;
  non-ASCII decimal digits, which Python also reads, are rejected here.
\<close>

definition is_space :: "nat \<Rightarrow> bool" where
  "is_space c \<longleftrightarrow>
     (9 \<le> c \<and> c \<le> 13) \<or> (28 \<le> c \<and> c \<le> 32) \<or> c = 133 \<or> c = 160 \<or> c = 5760 \<or>
     (8192 \<le> c \<and> c \<le> 8202) \<or> c = 8232 \<or> c = 8233 \<or> c = 8239 \<or> c = 8287 \<or> c = 12288"

definition strip_ws :: "pystr \<Rightarrow> pystr" where
  "strip_ws s = rev (dropWhile is_space (rev (dropWhile is_space s)))"

definition hexval :: "nat \<Rightarrow> nat option" where
  "hexval c =
     (if 48 \<le> c \<and> c \<le> 57 then Some (c - 48)
      else if 97 \<le> c \<and> c \<le> 102 then Some (c - 87)
      else if 65 \<le> c \<and> c \<le> 70 then Some (c - 55)
      else None)"

text \<open>\<open>hex_digits prev acc s\<close>: \<open>prev\<close> says that the character before was a digit.\<close>

fun hex_digits :: "bool \<Rightarrow> nat \<Rightarrow> pystr \<Rightarrow> nat option" where
  "hex_digits prev acc [] = (if prev then Some acc else None)"
| "hex_digits prev acc (c # cs) =
     (if c = 95 then (if prev \<and> cs \<noteq> [] then hex_digits False acc cs else None)
      else case hexval c of
             None \<Rightarrow> None
           | Some d \<Rightarrow> hex_digits True (16 * acc + d) cs)"

definition drop_prefix16 :: "pystr \<Rightarrow> pystr" where
  "drop_prefix16 s =
     (case s of
        a # b # r \<Rightarrow>
          if a = 48 \<and> (b = 120 \<or> b = 88)
          then (case r of u # r' \<Rightarrow> if u = 95 then r' else r | [] \<Rightarrow> r)
          else s
      | _ \<Rightarrow> s)"

definition int16 :: "pystr \<Rightarrow> py_error + int" where
  "int16 s =
     (let t = strip_ws s;
          neg = (t \<noteq> [] \<and> hd t = 45);
          u = (if t \<noteq> [] \<and> (hd t = 45 \<or> hd t = 43) then tl t else t)
      in case hex_digits False 0 (drop_prefix16 u) of
           None \<Rightarrow> Inl ValueError
         | Some n \<Rightarrow> Inr (if neg then - int n else int n))"

subsection \<open>\<open>Color.hex_to_rgb\<close> and \<open>Color.fg_hex\<close>\<close>

text \<open>\<open>hex_color.lstrip('#')\<close> removes every leading \<open>#\<close>.\<close>

definition lstrip_hash :: "pystr \<Rightarrow> pystr" where
  "lstrip_hash s = dropWhile (\<lambda>c. c = 35) s"

text \<open>\<open>hex_color[i:i+2]\<close>: a slice never fails, it is short or empty at the end.\<close>

definition slice2 :: "pystr \<Rightarrow> nat \<Rightarrow> pystr" where
  "slice2 s i = take 2 (drop i s)"

definition double_chars :: "pystr \<Rightarrow> pystr" where
  "double_chars s = concat (map (\<lambda>c. [c, c]) s)"

definition hex_to_rgb :: "pystr \<Rightarrow> py_error + (int \<times> int \<times> int)" where
  "hex_to_rgb hex_color =
     (let h = lstrip_hash hex_color;
          h' = (if length h = 3 then double_chars h else h)
      in case int16 (slice2 h' 0) of
           Inl e \<Rightarrow> Inl e
         | Inr r \<Rightarrow>
             (case int16 (slice2 h' 2) of
                Inl e \<Rightarrow> Inl e
              | Inr g \<Rightarrow>
                  (case int16 (slice2 h' 4) of
                     Inl e \<Rightarrow> Inl e
                   | Inr b \<Rightarrow> Inr (r, g, b))))"

definition fg_hex :: "pystr \<Rightarrow> py_error + pystr" where
  "fg_hex hex_color =
     (case hex_to_rgb hex_color of
        Inl e \<Rightarrow> Inl e
      | Inr (r, g, b) \<Rightarrow> Inr (fg_rgb r g b))"

subsection \<open>\<open>Color.strip_colors\<close>\<close>

text \<open>
  \<open>re.sub(r'\033\[[0-9;]*m', '', text)\<close>. The class \<open>[0-9;]\<close> holds neither
  \<open>m\<close> nor \<open>ESC\<close>, so the greedy run of parameters is the only candidate: a match
  at a position is \<open>ESC [\<close>, the longest run of digits and semicolons, and an \<open>m\<close>
  right after it. \<open>match_sgr\<close> returns what follows the match.
\<close>

definition is_param :: "nat \<Rightarrow> bool" where
  "is_param c \<longleftrightarrow> (48 \<le> c \<and> c \<le> 57) \<or> c = 59"

fun match_sgr :: "pystr \<Rightarrow> pystr option" where
  "match_sgr (a # b # cs) =
     (if a = ESC \<and> b = 91
      then (case dropWhile is_param cs of
              c # rest \<Rightarrow> if c = 109 then Some rest else None
            | [] \<Rightarrow> None)
      else None)"
| "match_sgr _ = None"

function strip_colors :: "pystr \<Rightarrow> pystr" where
  "strip_colors [] = []"
| "strip_colors (c # cs) =
     (case match_sgr (c # cs) of
        Some rest \<Rightarrow> strip_colors rest
      | None \<Rightarrow> c # strip_colors cs)"
  by pat_completeness auto
termination
proof (relation "measure length", goal_cases)
  case 1
  show ?case by simp
next
  case (2 c cs)
  show ?case by simp
next
  case (3 c cs rest)
  then obtain b bs x where cs: "cs = b # bs" and d: "dropWhile is_param bs = x # rest"
    by (cases cs) (auto split: if_splits list.splits)
  have "length (dropWhile is_param bs) \<le> length bs"
    by (rule length_dropWhile_le)
  with cs d show ?case by simp
qed

subsection \<open>\<open>Color.gradient\<close>\<close>

text \<open>
  The palette index of character \<open>i\<close> is \<open>min(int(i / step), len(colors) - 1)\<close>
  with \<open>step = len(text) / (len(colors) - 1)\<close> when there are two colors or more and
  \<open>step = 1\<close> otherwise. Both divisions are floating-point divisions; \<open>fq i n k\<close>
  stands for the value \<open>int(i / step)\<close> that the floating-point unit gives for character
  \<open>i\<close> of a text of length \<open>n\<close> and a palette of size \<open>k\<close>. It is a natural number,
  since \<open>i \<ge> 0\<close> and \<open>step > 0\<close>. Both branches of the source's interpolation test
  append the same string.
\<close>

definition gradient_char :: "(nat \<Rightarrow> nat \<Rightarrow> nat \<Rightarrow> nat) \<Rightarrow> nat \<Rightarrow> pystr list \<Rightarrow> nat \<times> nat \<Rightarrow> pystr" where
  "gradient_char fq n colors ic =
     (case ic of (i, char) \<Rightarrow>
        if char = 32 then [char]
        else (let color_idx = min (fq i n (length colors)) (length colors - 1);
                  next_idx = min (color_idx + 1) (length colors - 1)
              in if color_idx = next_idx then colors ! color_idx @ [char]
                 else colors ! color_idx @ [char]))"

definition gradient :: "(nat \<Rightarrow> nat \<Rightarrow> nat \<Rightarrow> nat) \<Rightarrow> pystr \<Rightarrow> pystr list \<Rightarrow> pystr" where
  "gradient fq text colors =
     (if colors = [] then text
      else concat (map (gradient_char fq (length text) colors) (enumerate 0 text)) @ RESET)"


section \<open>Python string helpers\<close>

text \<open>\<open>s * n\<close>: a count below one gives the empty string.\<close>

definition mul :: "pystr \<Rightarrow> int \<Rightarrow> pystr" where
  "mul s n = concat (replicate (nat n) s)"

definition spaces :: "int \<Rightarrow> pystr" where
  "spaces n = replicate (nat n) 32"

definition join :: "pystr \<Rightarrow> pystr list \<Rightarrow> pystr" where
  "join sep xs = (case xs of [] \<Rightarrow> [] | y # ys \<Rightarrow> y @ concat (map (\<lambda>z. sep @ z) ys))"

definition ljust :: "pystr \<Rightarrow> int \<Rightarrow> pystr" where
  "ljust s width = (if width \<le> int (length s) then s else s @ spaces (width - int (length s)))"

definition rjust :: "pystr \<Rightarrow> int \<Rightarrow> pystr" where
  "rjust s width = (if width \<le> int (length s) then s else spaces (width - int (length s)) @ s)"

text \<open>\<open>str.center\<close>: CPython puts \<open>marg // 2 + (marg & width & 1)\<close> spaces on the left.\<close>

definition center :: "pystr \<Rightarrow> int \<Rightarrow> pystr" where
  "center s width =
     (if width \<le> int (length s) then s
      else (let marg = width - int (length s);
                left = marg div 2 + (if odd marg \<and> odd width then 1 else 0)
            in spaces left @ s @ spaces (marg - left)))"

text \<open>\<open>text.split('\n')\<close>: at least one piece, the last one possibly empty.\<close>

fun split_nl :: "pystr \<Rightarrow> pystr list" where
  "split_nl [] = [[]]"
| "split_nl (c # cs) =
     (if c = 10 then [] # split_nl cs
      else (case split_nl cs of l # ls \<Rightarrow> (c # l) # ls | [] \<Rightarrow> [[c]]))"

text \<open>A loop whose body may raise: the first exception ends it.\<close>

fun mapM :: "('a \<Rightarrow> py_error + 'b) \<Rightarrow> 'a list \<Rightarrow> py_error + 'b list" where
  "mapM f [] = Inr []"
| "mapM f (x # xs) =
     (case f x of
        Inl e \<Rightarrow> Inl e
      | Inr y \<Rightarrow> (case mapM f xs of Inl e \<Rightarrow> Inl e | Inr ys \<Rightarrow> Inr (y # ys)))"

section \<open>MessageService\<close>

record MessageStyle =
  prefix :: pystr
  color :: pystr
  style :: pystr
  icon :: pystr
  timestamp :: bool
  indent :: int


text \<open>
  The dataclass constructor with its defaults. The non-ASCII literals of the source file
  are written as the code points the file holds.
\<close>

definition mk_style :: "pystr \<Rightarrow> pystr \<Rightarrow> pystr \<Rightarrow> pystr \<Rightarrow> MessageStyle" where
  "mk_style p c st ic = \<lparr>prefix = p, color = c, style = st, icon = ic, timestamp = False, indent = 0\<rparr>"


text \<open>The class attributes of \<open>MessageService\<close>: process-wide state.\<close>

record MessageService =
  custom_styles :: "pystr \<rightharpoonup> MessageStyle"
  show_icons :: bool
  show_timestamps :: bool
  timestamp_format :: pystr


definition register_style :: "MessageService \<Rightarrow> pystr \<Rightarrow> pystr \<Rightarrow> pystr \<Rightarrow> pystr \<Rightarrow> pystr \<Rightarrow> MessageService" where
  "register_style cls name p c st ic =
     cls\<lparr>custom_styles := (custom_styles cls)(name \<mapsto> mk_style p c st ic)\<rparr>"





section \<open>ProgressBar\<close>







section \<open>TablePrinter\<close>

text \<open>One entry of \<open>_border_styles\<close>: the eleven glyphs of a style.\<close>

record border =
  top_left :: pystr
  top_right :: pystr
  bottom_left :: pystr
  bottom_right :: pystr
  horizontal :: pystr
  vertical :: pystr
  cross :: pystr
  top_cross :: pystr
  bottom_cross :: pystr
  left_cross :: pystr
  right_cross :: pystr

definition border_rounded :: border where
  "border_rounded =
     \<lparr>top_left = [8218, 239, 8800], top_right = [8218, 239, 198],
      bottom_left = [8218, 239, 8734], bottom_right = [8218, 239, 216],
      horizontal = [8218, 238, 196], vertical = [8218, 238, 199], cross = [8218, 238, 186],
      top_cross = [8218, 238, 168], bottom_cross = [8218, 238, 165],
      left_cross = [8218, 238, 250], right_cross = [8218, 238, 167]\<rparr>"

definition border_double :: border where
  "border_double =
     \<lparr>top_left = [8218, 239, 238], top_right = [8218, 239, 243],
      bottom_left = [8218, 239, 246], bottom_right = [8218, 239, 249],
      horizontal = [8218, 239, 234], vertical = [8218, 239, 235], cross = [8218, 239, 168],
      top_cross = [8218, 239, 182], bottom_cross = [8218, 239, 169],
      left_cross = [8218, 239, 8224], right_cross = [8218, 239, 163]\<rparr>"

definition border_simple :: border where
  "border_simple =
     \<lparr>top_left = [8218, 238, 229], top_right = [8218, 238, 234],
      bottom_left = [8218, 238, 238], bottom_right = [8218, 238, 242],
      horizontal = [8218, 238, 196], vertical = [8218, 238, 199], cross = [8218, 238, 186],
      top_cross = [8218, 238, 168], bottom_cross = [8218, 238, 165],
      left_cross = [8218, 238, 250], right_cross = [8218, 238, 167]\<rparr>"

definition border_plain :: border where
  "border_plain =
     \<lparr>top_left = [], top_right = [], bottom_left = [], bottom_right = [],
      horizontal = [], vertical = [32], cross = [], top_cross = [], bottom_cross = [],
      left_cross = [], right_cross = []\<rparr>"

definition border_styles :: "pystr \<Rightarrow> border option" where
  "border_styles name =
     (if name = ascii ''rounded'' then Some border_rounded
      else if name = ascii ''double'' then Some border_double
      else if name = ascii ''simple'' then Some border_simple
      else if name = ascii ''plain'' then Some border_plain
      else None)"

text \<open>
  A cell is any Python value. The code asks two things of it: whether it is \<open>None\<close>,
  and its \<open>str()\<close>; \<open>Val s\<close> is a value other than \<open>None\<close> whose \<open>str()\<close> is \<open>s\<close>.
\<close>

datatype cell = PyNone | Val pystr

definition str_cell :: "cell \<Rightarrow> pystr" where
  "str_cell c = (case c of PyNone \<Rightarrow> ascii ''None'' | Val s \<Rightarrow> s)"

record TablePrinter =
  headers :: "pystr list"
  rows :: "cell list list"
  column_align :: "pystr list"
  padding :: int
  border_style :: pystr
  header_color :: pystr
  zebra_stripes :: bool
  stripe_color :: pystr

text \<open>\<open>column_align or ["left"] * len(headers)\<close>: \<open>None\<close> and the empty list give the default.\<close>

definition TablePrinter_init :: "pystr list \<Rightarrow> pystr list option \<Rightarrow> int \<Rightarrow> pystr \<Rightarrow> pystr \<Rightarrow> bool \<Rightarrow> pystr \<Rightarrow> TablePrinter" where
  "TablePrinter_init headers' column_align' padding' border_style' header_color' zebra_stripes' stripe_color' =
     \<lparr>headers = headers', rows = [],
      column_align = (case column_align' of
                        Some a \<Rightarrow> if a = [] then replicate (length headers') (ascii ''left'') else a
                      | None \<Rightarrow> replicate (length headers') (ascii ''left'')),
      padding = padding', border_style = border_style', header_color = header_color',
      zebra_stripes = zebra_stripes', stripe_color = stripe_color'\<rparr>"

definition add_row :: "TablePrinter \<Rightarrow> cell list \<Rightarrow> TablePrinter" where
  "add_row self row = self\<lparr>rows := rows self @ [row]\<rparr>"

definition add_rows :: "TablePrinter \<Rightarrow> cell list list \<Rightarrow> TablePrinter" where
  "add_rows self rs = self\<lparr>rows := rows self @ rs\<rparr>"

subsection \<open>\<open>TablePrinter.print\<close>\<close>

text \<open>The width of column \<open>i\<close>, for \<open>i\<close> in \<open>range(len(self.headers))\<close>.\<close>

definition col_width :: "TablePrinter \<Rightarrow> nat \<Rightarrow> int" where
  "col_width self i =
     foldl (\<lambda>max_width row.
              if i < length row then max max_width (int (length (str_cell (row ! i))))
              else max_width)
           (int (length (headers self ! i))) (rows self)
     + padding self * 2"

definition col_widths :: "TablePrinter \<Rightarrow> int list" where
  "col_widths self = map (col_width self) [0..<length (headers self)]"

text \<open>The top rule, the separator and the bottom rule are built by the same loop.\<close>

definition rule_line :: "pystr \<Rightarrow> pystr \<Rightarrow> pystr \<Rightarrow> pystr \<Rightarrow> int list \<Rightarrow> pystr" where
  "rule_line left horiz joint right ws =
     left @
     concat (map (\<lambda>(i, width). mul horiz width @ (if int i < int (length ws) - 1 then joint else []))
               (enumerate 0 ws)) @
     right"

definition align_text :: "pystr \<Rightarrow> pystr \<Rightarrow> int \<Rightarrow> pystr" where
  "align_text align s width =
     (if align = ascii ''center'' then center s width
      else if align = ascii ''right'' then rjust s width
      else ljust s width)"

text \<open>
  One pass of the header loop and of the cell loop: the padded, colored segment of a
  column, without the vertical glyph that follows it. The subscripts \<open>col_widths[i]\<close>
  and \<open>self.column_align[i]\<close> raise \<open>IndexError\<close> out of range.
\<close>

definition segment :: "TablePrinter \<Rightarrow> int list \<Rightarrow> pystr \<Rightarrow> nat \<Rightarrow> pystr \<Rightarrow> py_error + pystr" where
  "segment self ws colr i s =
     (if length ws \<le> i then Inl IndexError
      else if length (column_align self) \<le> i then Inl IndexError
      else (let width = ws ! i - padding self * 2;
                align = column_align self ! i;
                formatted = align_text align s width
            in Inr (spaces (padding self) @ colr @ formatted @ RESET @ spaces (padding self))))"

definition header_cells :: "TablePrinter \<Rightarrow> int list \<Rightarrow> py_error + pystr list" where
  "header_cells self ws =
     mapM (\<lambda>(i, header). segment self ws (header_color self) i header) (enumerate 0 (headers self))"

text \<open>\<open>str(cell) if cell is not None else ""\<close>\<close>

definition cell_str :: "cell \<Rightarrow> pystr" where
  "cell_str c = (case c of PyNone \<Rightarrow> [] | Val s \<Rightarrow> s)"

definition row_cells :: "TablePrinter \<Rightarrow> int list \<Rightarrow> nat \<times> cell list \<Rightarrow> py_error + pystr list" where
  "row_cells self ws ir =
     (case ir of (row_idx, row) \<Rightarrow>
        (let row_color = (if zebra_stripes self \<and> row_idx mod 2 = 1 then stripe_color self else [])
         in mapM (\<lambda>(i, c). segment self ws row_color i (cell_str c)) (enumerate 0 row)))"

text \<open>A line opens with the vertical glyph, and each segment is followed by it.\<close>

definition line_of :: "border \<Rightarrow> pystr list \<Rightarrow> pystr" where
  "line_of b segs =
     (if vertical b \<noteq> [] then vertical b else []) @
     concat (map (\<lambda>seg. seg @ (if vertical b \<noteq> [] then vertical b else [])) segs)"

definition data_rows :: "TablePrinter \<Rightarrow> py_error + pystr list list" where
  "data_rows self = mapM (row_cells self (col_widths self)) (enumerate 0 (rows self))"

text \<open>
  \<open>print_table\<close> gives the lines that \<open>TablePrinter.print\<close> writes when it returns,
  and the exception when one leaves it.
\<close>

definition print_table :: "TablePrinter \<Rightarrow> py_error + pystr list" where
  "print_table self =
     (let ws = col_widths self;
          b = (case border_styles (border_style self) of Some b \<Rightarrow> b | None \<Rightarrow> border_simple);
          top = (if top_left b \<noteq> []
                 then [rule_line (top_left b) (horizontal b) (top_cross b) (top_right b) ws] else [])
      in case header_cells self ws of
           Inl e \<Rightarrow> Inl e
         | Inr hs \<Rightarrow>
             (let sep = (if left_cross b \<noteq> []
                         then [rule_line (left_cross b) (horizontal b) (cross b) (right_cross b) ws]
                         else [])
              in case data_rows self of
                   Inl e \<Rightarrow> Inl e
                 | Inr rs \<Rightarrow>
                     (let bottom = (if bottom_left b \<noteq> []
                                    then [rule_line (bottom_left b) (horizontal b) (bottom_cross b)
                                            (bottom_right b) ws]
                                    else [])
                      in Inr (top @ [line_of b hs] @ sep @ map (line_of b) rs @ bottom))))"

section \<open>ArtService.box\<close>

text \<open>The glyphs of the box, as the code points of the source's literals.\<close>

definition BOX_TOP_LEFT :: pystr where
  "BOX_TOP_LEFT = [8218, 239, 8800]"

definition BOX_TOP_RIGHT :: pystr where
  "BOX_TOP_RIGHT = [8218, 239, 198]"

definition BOX_BOTTOM_LEFT :: pystr where
  "BOX_BOTTOM_LEFT = [8218, 239, 8734]"

definition BOX_BOTTOM_RIGHT :: pystr where
  "BOX_BOTTOM_RIGHT = [8218, 239, 216]"

definition BOX_HORIZONTAL :: pystr where
  "BOX_HORIZONTAL = [8218, 238, 196]"

definition BOX_VERTICAL :: pystr where
  "BOX_VERTICAL = [8218, 238, 199]"

text \<open>\<open>max(len(Color.strip_colors(line)) for line in lines)\<close>, on a list that is never empty.\<close>

definition box_max_len :: "pystr list \<Rightarrow> int" where
  "box_max_len lines = int (foldl max 0 (map (\<lambda>line. length (strip_colors line)) lines))"

definition box_content :: "int \<Rightarrow> int \<Rightarrow> pystr \<Rightarrow> pystr \<Rightarrow> pystr" where
  "box_content max_len padding' border_color line =
     (let clean_len = int (length (strip_colors line));
          padding_right = max_len - clean_len
      in border_color @ BOX_VERTICAL @ spaces padding' @ line @
         spaces (padding' + padding_right) @ border_color @ BOX_VERTICAL)"

definition box_top :: "int \<Rightarrow> pystr \<Rightarrow> int \<Rightarrow> pystr \<Rightarrow> pystr \<Rightarrow> pystr" where
  "box_top max_len title padding' border_color title_color =
     (if title \<noteq> []
      then border_color @ BOX_TOP_LEFT @ BOX_HORIZONTAL @ [32] @ title_color @ title @
           border_color @ [32] @
           mul BOX_HORIZONTAL (max_len - int (length title) + padding' * 2) @ BOX_TOP_RIGHT
      else border_color @ BOX_TOP_LEFT @ mul BOX_HORIZONTAL (max_len + padding' * 2 + 2) @
           BOX_TOP_RIGHT)"

definition box_bottom :: "int \<Rightarrow> int \<Rightarrow> pystr \<Rightarrow> pystr" where
  "box_bottom max_len padding' border_color =
     border_color @ BOX_BOTTOM_LEFT @ mul BOX_HORIZONTAL (max_len + padding' * 2 + 2) @
     BOX_BOTTOM_RIGHT"

text \<open>The lines that \<open>box\<close> joins: the top border, the content lines, the bottom border.\<close>

definition box_lines :: "pystr \<Rightarrow> pystr \<Rightarrow> int \<Rightarrow> pystr \<Rightarrow> pystr \<Rightarrow> pystr list" where
  "box_lines text title padding' border_color title_color =
     (let lines = split_nl text;
          max_len = box_max_len lines
      in [box_top max_len title padding' border_color title_color] @
         map (box_content max_len padding' border_color) lines @
         [box_bottom max_len padding' border_color])"

definition box :: "pystr \<Rightarrow> pystr \<Rightarrow> int \<Rightarrow> pystr \<Rightarrow> pystr \<Rightarrow> pystr" where
  "box text title padding' border_color title_color =
     join [10] (box_lines text title padding' border_color title_color) @ RESET"

section \<open>Notions used in the statements\<close>

definition is_hex :: "nat \<Rightarrow> bool" where
  "is_hex c \<longleftrightarrow> hexval c \<noteq> None"

definition hv :: "nat \<Rightarrow> int" where
  "hv c = (case hexval c of Some d \<Rightarrow> int d | None \<Rightarrow> 0)"

text \<open>Three or six hex digits.\<close>

definition valid_hex :: "pystr \<Rightarrow> bool" where
  "valid_hex h \<longleftrightarrow> (length h = 3 \<or> length h = 6) \<and> list_all is_hex h"

text \<open>The visible length of a string, and a string that is made of escape sequences only.\<close>

definition visible_len :: "pystr \<Rightarrow> nat" where
  "visible_len s = length (strip_colors s)"

definition is_style_token :: "pystr \<Rightarrow> bool" where
  "is_style_token t \<longleftrightarrow> strip_colors t = []"





section \<open>Example inputs\<close>



definition table_short_row :: TablePrinter where
  "table_short_row =
     add_row (TablePrinter_init [ascii ''A'', ascii ''B''] None 1 (ascii ''simple'') (CYAN @ BOLD)
                False DIM)
       [Val (ascii ''1'')]"

definition table_long_row :: TablePrinter where
  "table_long_row =
     add_row (TablePrinter_init [ascii ''A'', ascii ''B''] None 1 (ascii ''simple'') (CYAN @ BOLD)
                False DIM)
       [Val (ascii ''1''), Val (ascii ''2''), Val (ascii ''3'')]"


section \<open>Color engine: lemmas\<close>

lemma is_hex_not_space: "is_hex c \<Longrightarrow> \<not> is_space c"
  by (auto simp: is_hex_def hexval_def is_space_def split: if_splits)

lemma is_hex_cases:
  "is_hex c \<Longrightarrow> c \<noteq> 35 \<and> c \<noteq> 45 \<and> c \<noteq> 43 \<and> c \<noteq> 120 \<and> c \<noteq> 88 \<and> c \<noteq> 95"
  by (auto simp: is_hex_def hexval_def split: if_splits)

lemma int16_pair:
  assumes "is_hex a" "is_hex b"
  shows "int16 [a, b] = Inr (16 * hv a + hv b)"
proof -
  from assms obtain x y where x: "hexval a = Some x" and y: "hexval b = Some y"
    by (auto simp: is_hex_def)
  have s: "strip_ws [a, b] = [a, b]"
    using assms by (simp add: strip_ws_def is_hex_not_space)
  have p: "drop_prefix16 [a, b] = [a, b]"
    using is_hex_cases [OF assms(2)] by (simp add: drop_prefix16_def)
  show ?thesis
    using is_hex_cases [OF assms(1)] is_hex_cases [OF assms(2)] x y
    by (simp add: int16_def s p hv_def)
qed

lemma hex_to_rgb_6:
  assumes "is_hex a" "is_hex b" "is_hex c" "is_hex d" "is_hex e" "is_hex f"
  shows "hex_to_rgb [a, b, c, d, e, f] =
         Inr (16 * hv a + hv b, 16 * hv c + hv d, 16 * hv e + hv f)"
  using is_hex_cases [OF assms(1)] assms
  by (simp add: hex_to_rgb_def lstrip_hash_def slice2_def int16_pair)

lemma hex_to_rgb_3:
  assumes "is_hex a" "is_hex b" "is_hex c"
  shows "hex_to_rgb [a, b, c] = Inr (16 * hv a + hv a, 16 * hv b + hv b, 16 * hv c + hv c)"
  using is_hex_cases [OF assms(1)] assms
  by (simp add: hex_to_rgb_def lstrip_hash_def slice2_def double_chars_def int16_pair)

lemma hex_to_rgb_hash: "hex_to_rgb (35 # h) = hex_to_rgb h"
  by (simp add: hex_to_rgb_def lstrip_hash_def)

lemma int16_error: "int16 s = Inl e \<Longrightarrow> e = ValueError"
  by (auto simp: int16_def Let_def split: option.splits)

lemma hex_to_rgb_error: "hex_to_rgb h = Inl e \<Longrightarrow> e = ValueError"
  by (auto simp: hex_to_rgb_def Let_def split: sum.splits dest: int16_error)

lemma int16_empty: "int16 [] = Inl ValueError"
  by (simp add: int16_def strip_ws_def drop_prefix16_def)

lemma hex_to_rgb_short:
  assumes "length (lstrip_hash h) \<in> {0, 1, 2, 4}"
  shows "hex_to_rgb h = Inl ValueError"
proof -
  have "slice2 (lstrip_hash h) 4 = []"
    using assms by (auto simp: slice2_def)
  moreover have "length (lstrip_hash h) \<noteq> 3"
    using assms by auto
  ultimately show ?thesis
    by (auto simp: hex_to_rgb_def Let_def int16_empty split: sum.splits dest: int16_error)
qed

lemma valid_hex_ok:
  assumes "valid_hex h"
  shows "\<exists>rgb. hex_to_rgb h = Inr rgb \<and> hex_to_rgb (35 # h) = Inr rgb"
proof -
  from assms consider (three) a b c where "h = [a, b, c]" "is_hex a" "is_hex b" "is_hex c"
    | (six) a b c d e f where "h = [a, b, c, d, e, f]"
        "is_hex a" "is_hex b" "is_hex c" "is_hex d" "is_hex e" "is_hex f"
    by (auto simp: valid_hex_def length_Suc_conv eval_nat_numeral)
  then show ?thesis
    by cases (simp_all add: hex_to_rgb_hash hex_to_rgb_3 hex_to_rgb_6)
qed

lemma fg_hex_error_iff: "fg_hex h = Inl e \<longleftrightarrow> hex_to_rgb h = Inl e"
  by (auto simp: fg_hex_def split: sum.splits prod.splits)

lemma dropWhile_param_append:
  assumes "t \<noteq> []" "\<not> is_param (hd t)"
  shows "dropWhile is_param (bs @ t) = dropWhile is_param bs @ t"
  using assms by (induction bs) (auto simp: neq_Nil_conv)

lemma end_m_append_safe:
  assumes "t \<noteq> []" "hd t \<noteq> 109"
  shows "(case D @ t of c # rest \<Rightarrow> if c = 109 then Some rest else None | [] \<Rightarrow> None) =
         map_option (\<lambda>r. r @ t)
           (case D of c # rest \<Rightarrow> if c = (109::nat) then Some rest else None | [] \<Rightarrow> None)"
  using assms by (cases D; cases t) simp_all

lemma match_sgr_append_safe:
  assumes "t \<noteq> []" "hd t \<noteq> 91" "hd t \<noteq> 109" "\<not> is_param (hd t)"
  shows "match_sgr (c # cs @ t) = map_option (\<lambda>r. r @ t) (match_sgr (c # cs))"
proof (cases cs)
  case Nil
  with assms show ?thesis by (cases t) auto
next
  case (Cons b bs)
  have d: "dropWhile is_param (bs @ t) = dropWhile is_param bs @ t"
    by (rule dropWhile_param_append [OF assms(1) assms(4)])
  have "match_sgr (c # cs @ t) = match_sgr (c # b # (bs @ t))"
    by (simp add: Cons)
  also have "\<dots> = (if c = ESC \<and> b = 91
      then (case dropWhile is_param bs @ t of
              c # rest \<Rightarrow> if c = 109 then Some rest else None
            | [] \<Rightarrow> None)
      else None)"
    by (simp only: match_sgr.simps d)
  also have "\<dots> = map_option (\<lambda>r. r @ t) (match_sgr (c # b # bs))"
    by (simp add: end_m_append_safe [OF assms(1) assms(3)])
  finally show ?thesis by (simp only: Cons)
qed

lemma strip_append_safe:
  assumes "t \<noteq> []" "hd t \<noteq> 91" "hd t \<noteq> 109" "\<not> is_param (hd t)"
  shows "strip_colors (s @ t) = strip_colors s @ strip_colors t"
proof (induction s rule: strip_colors.induct)
  case 1
  show ?case by simp
next
  case (2 c cs)
  show ?case
  proof (cases "match_sgr (c # cs)")
    case None
    with 2 match_sgr_append_safe [OF assms, of c cs] show ?thesis by simp
  next
    case (Some r)
    with 2 match_sgr_append_safe [OF assms, of c cs] show ?thesis by simp
  qed
qed

lemma match_sgr_append_Some:
  assumes "match_sgr x = Some r"
  shows "match_sgr (x @ s) = Some (r @ s)"
proof -
  from assms obtain a b cs where x: "x = a # b # cs"
    by (cases x rule: match_sgr.cases) auto
  with assms have ab: "a = ESC" "b = 91" and d: "dropWhile is_param cs = 109 # r"
    by (auto split: if_splits list.splits)
  from d have "dropWhile is_param cs \<noteq> []" by simp
  then have "\<exists>y \<in> set cs. \<not> is_param y" by simp
  then have "dropWhile is_param (cs @ s) = dropWhile is_param cs @ s"
    by (metis dropWhile_append1)
  with x ab d show ?thesis by simp
qed

lemma strip_token_prefix:
  "strip_colors t = [] \<Longrightarrow> strip_colors (t @ s) = strip_colors s"
proof (induction t rule: strip_colors.induct)
  case 1
  show ?case by simp
next
  case (2 c cs)
  from "2.prems" obtain r where m: "match_sgr (c # cs) = Some r" and r: "strip_colors r = []"
    by (cases "match_sgr (c # cs)") auto
  from match_sgr_append_Some [OF m, of s] have "match_sgr (c # cs @ s) = Some (r @ s)" by simp
  with "2.IH"(2) [OF m r] show ?case by simp
qed

lemma strip_RESET: "strip_colors RESET = []"
  by (simp add: RESET_def sgr_def ascii_def ESC_def is_param_def)

lemma strip_append_RESET: "strip_colors (s @ RESET) = strip_colors s"
proof -
  have "RESET \<noteq> []" "hd RESET \<noteq> 91" "hd RESET \<noteq> 109" "\<not> is_param (hd RESET)"
    by (simp_all add: RESET_def sgr_def ESC_def is_param_def)
  from strip_append_safe [OF this] show ?thesis by (simp add: strip_RESET)
qed

lemma map_enumerate_snd: "map (\<lambda>(i, ch). f ch) (enumerate n xs) = map f xs"
  by (induction xs arbitrary: n) auto

section \<open>Color engine: the claims\<close>

text \<open>
  C5, as the code has it. \<open>Color.hex_to_rgb\<close>, and \<open>Color.fg_hex\<close> which calls it, return
  on every string of three or six hex digits, with or without a leading \<open>#\<close>. The only
  exception that leaves them is the \<open>ValueError\<close> of \<open>int\<close>, raised inside the call
  itself; it is raised whenever the string, once its leading \<open>#\<close>s are removed, has length
  0, 1, 2 or 4. The source has no \<open>InvalidColorFormat\<close> and no check of the length, so
  other malformed strings may be accepted.
\<close>

theorem C5_hex_to_rgb_errors:
  "(valid_hex h \<longrightarrow> (\<exists>rgb. hex_to_rgb h = Inr rgb \<and> hex_to_rgb (35 # h) = Inr rgb)) \<and>
   (hex_to_rgb h = Inl e \<longrightarrow> e = ValueError) \<and>
   (length (lstrip_hash h) \<in> {0, 1, 2, 4} \<longrightarrow> hex_to_rgb h = Inl ValueError) \<and>
   (fg_hex h = Inl e \<longleftrightarrow> hex_to_rgb h = Inl e)"
  using valid_hex_ok hex_to_rgb_error hex_to_rgb_short fg_hex_error_iff by blast

theorem C5_hex_to_rgb_errors_witness:
  "valid_hex (ascii ''FF6B6B'') \<and>
   (\<exists>rgb. hex_to_rgb (ascii ''FF6B6B'') = Inr rgb \<and> hex_to_rgb (35 # ascii ''FF6B6B'') = Inr rgb) \<and>
   length (lstrip_hash (ascii ''FFFF'')) \<in> {0, 1, 2, 4} \<and>
   hex_to_rgb (ascii ''FFFF'') = Inl ValueError"
proof -
  have v: "valid_hex (ascii ''FF6B6B'')"
    by (simp add: valid_hex_def ascii_def is_hex_def hexval_def)
  have l: "length (lstrip_hash (ascii ''FFFF'')) \<in> {0, 1, 2, 4}"
    by (simp add: lstrip_hash_def ascii_def)
  from C5_hex_to_rgb_errors [of "ascii ''FF6B6B''" ValueError] v
  have a: "\<exists>rgb. hex_to_rgb (ascii ''FF6B6B'') = Inr rgb \<and> hex_to_rgb (35 # ascii ''FF6B6B'') = Inr rgb"
    by blast
  from C5_hex_to_rgb_errors [of "ascii ''FFFF''" ValueError] l
  have b: "hex_to_rgb (ascii ''FFFF'') = Inl ValueError"
    by blast
  from v l a b show ?thesis by blast
qed

text \<open>
  C5 as stated fails: \<open>FFFFF\<close> is neither three nor six hex digits, and
  \<open>hex_to_rgb\<close> returns on it: the last slice is the single digit \<open>F\<close>.
\<close>

theorem C5_counterexample:
  "\<not> valid_hex (ascii ''FFFFF'') \<and> hex_to_rgb (ascii ''FFFFF'') = Inr (255, 255, 15)"
  by (simp add: valid_hex_def hex_to_rgb_def ascii_def lstrip_hash_def slice2_def int16_def
      strip_ws_def is_space_def drop_prefix16_def hexval_def)

text \<open>
  C6. On six hex digits \<open>hex_to_rgb\<close> returns the three bytes, on three hex digits the
  bytes of the doubled digits, with or without a leading \<open>#\<close>; \<open>F06\<close> is doubled to
  \<open>FF0066\<close>; \<open>fg_hex("#FF6B6B")\<close> is the token \<open>ESC[38;2;255;107;107m\<close>, and
  \<open>strip_colors\<close> turns this token into the empty string.
\<close>

theorem C6_hex_forms:
  assumes "is_hex a" "is_hex b" "is_hex c" "is_hex d" "is_hex e" "is_hex f"
  shows "hex_to_rgb [a, b, c, d, e, f] = Inr (16 * hv a + hv b, 16 * hv c + hv d, 16 * hv e + hv f) \<and>
         hex_to_rgb (35 # [a, b, c, d, e, f]) = hex_to_rgb [a, b, c, d, e, f] \<and>
         hex_to_rgb [a, c, e] = hex_to_rgb [a, a, c, c, e, e] \<and>
         hex_to_rgb (35 # [a, c, e]) = hex_to_rgb [a, a, c, c, e, e] \<and>
         fg_hex [a, b, c, d, e, f] = Inr (fg_rgb (16 * hv a + hv b) (16 * hv c + hv d) (16 * hv e + hv f)) \<and>
         fg_hex (35 # [a, b, c, d, e, f]) = fg_hex [a, b, c, d, e, f] \<and>
         fg_hex [a, c, e] = fg_hex [a, a, c, c, e, e] \<and>
         fg_hex (35 # [a, c, e]) = fg_hex [a, a, c, c, e, e] \<and>
         double_chars (ascii ''F06'') = ascii ''FF0066'' \<and>
         hex_to_rgb (ascii ''F06'') = Inr (255, 0, 102) \<and>
         fg_hex (ascii ''#FF6B6B'') = Inr (ESC # ascii ''[38;2;255;107;107m'') \<and>
         strip_colors (ESC # ascii ''[38;2;255;107;107m'') = []"
proof -
  have six: "hex_to_rgb [a, b, c, d, e, f] = Inr (16 * hv a + hv b, 16 * hv c + hv d, 16 * hv e + hv f)"
    by (rule hex_to_rgb_6 [OF assms])
  have three: "hex_to_rgb [a, c, e] = hex_to_rgb [a, a, c, c, e, e]"
    using assms by (simp add: hex_to_rgb_3 hex_to_rgb_6)
  have dbl: "double_chars (ascii ''F06'') = ascii ''FF0066''"
    by (simp add: double_chars_def ascii_def)
  have f06: "hex_to_rgb (ascii ''F06'') = Inr (255, 0, 102)"
    by (simp add: hex_to_rgb_def ascii_def lstrip_hash_def slice2_def double_chars_def int16_def
        strip_ws_def is_space_def drop_prefix16_def hexval_def)
  have d: "digits10 255 = [50, 53, 53]" "digits10 107 = [49, 48, 55]"
    by (simp_all add: digits10.simps)
  have rgb: "hex_to_rgb (ascii ''#FF6B6B'') = Inr (255, 107, 107)"
    by (simp add: hex_to_rgb_def ascii_def lstrip_hash_def slice2_def int16_def
        strip_ws_def is_space_def drop_prefix16_def hexval_def)
  have fmt: "fg_rgb 255 107 107 = ESC # ascii ''[38;2;255;107;107m''"
    by (simp add: fg_rgb_def str_int_def d ascii_def)
  have tok: "fg_hex (ascii ''#FF6B6B'') = Inr (ESC # ascii ''[38;2;255;107;107m'')"
    by (simp add: fg_hex_def rgb fmt)
  have strip: "strip_colors (ESC # ascii ''[38;2;255;107;107m'') = []"
    by code_simp
  show ?thesis
    using six three dbl f06 tok strip by (simp add: hex_to_rgb_hash fg_hex_def)
qed

theorem C6_hex_forms_witness:
  "is_hex 70 \<and> is_hex 54 \<and> is_hex 66 \<and>
   hex_to_rgb [70, 70, 54, 66, 54, 66] = Inr (255, 107, 107) \<and>
   hex_to_rgb [70, 54, 54] = hex_to_rgb [70, 70, 54, 54, 54, 54]"
proof -
  have h: "is_hex 70" "is_hex 54" "is_hex 66"
    by (simp_all add: is_hex_def hexval_def)
  have v: "hv 70 = 15" "hv 54 = 6" "hv 66 = 11"
    by (simp_all add: hv_def hexval_def)
  from C6_hex_forms [OF h(1) h(1) h(2) h(3) h(2) h(3)]
  have a: "hex_to_rgb [70, 70, 54, 66, 54, 66] = Inr (255, 107, 107)"
    by (simp add: v)
  from C6_hex_forms [OF h(1) h(1) h(2) h(2) h(2) h(2)]
  have b: "hex_to_rgb [70, 54, 54] = hex_to_rgb [70, 70, 54, 54, 54, 54]"
    by blast
  from h a b show ?thesis by blast
qed

text \<open>
  C7, as the code has it. For every string \<open>s\<close> and every style token (a string made of
  escape sequences only), \<open>strip_colors(token + s + RESET)\<close> is \<open>strip_colors(s)\<close>;
  it is \<open>s\<close> itself when \<open>s\<close> holds no escape sequence.
\<close>

theorem C7_strip_styled:
  assumes "is_style_token tok"
  shows "strip_colors (tok @ s @ RESET) = strip_colors s \<and>
         (strip_colors s = s \<longrightarrow> strip_colors (tok @ s @ RESET) = s)"
proof -
  from assms have "strip_colors (tok @ s @ RESET) = strip_colors (s @ RESET)"
    by (simp add: is_style_token_def strip_token_prefix)
  then show ?thesis by (simp add: strip_append_RESET)
qed

theorem C7_strip_styled_witness:
  "is_style_token (RED @ BOLD) \<and> strip_colors (ascii ''ok'') = ascii ''ok'' \<and>
   strip_colors ((RED @ BOLD) @ ascii ''ok'' @ RESET) = ascii ''ok''"
proof -
  have t: "is_style_token (RED @ BOLD)"
    unfolding is_style_token_def by code_simp
  have p: "strip_colors (ascii ''ok'') = ascii ''ok''"
    by code_simp
  from C7_strip_styled [OF t, of "ascii ''ok''"] p
  have "strip_colors ((RED @ BOLD) @ ascii ''ok'' @ RESET) = ascii ''ok''"
    by blast
  with t p show ?thesis by blast
qed

text \<open>
  C7 as stated fails when \<open>s\<close> holds an escape sequence: with \<open>s\<close> the token \<open>RED\<close>,
  everything is stripped.
\<close>

theorem C7_counterexample:
  "is_style_token RED \<and> strip_colors (RED @ RED @ RESET) \<noteq> RED"
  by (simp add: is_style_token_def RED_def RESET_def sgr_def ascii_def ESC_def is_param_def)

text \<open>
  C8. With an empty palette \<open>Color.gradient\<close> returns the text as it is, with no reset;
  with a palette of one token, every character other than a space is preceded by the
  token, a space is emitted alone, and one \<open>RESET\<close> ends the result.
\<close>

theorem C8_gradient_small_palettes:
  "gradient fq text [] = text \<and>
   gradient fq text [c] = concat (map (\<lambda>ch. if ch = 32 then [ch] else c @ [ch]) text) @ RESET"
proof -
  have "gradient_char fq n [c] = (\<lambda>(i, ch). if ch = 32 then [ch] else c @ [ch])" for n
    by (auto simp: gradient_char_def fun_eq_iff)
  then show ?thesis by (simp add: gradient_def map_enumerate_snd)
qed

section \<open>MessageService: the claim\<close>




section \<open>ProgressBar: the claims\<close>









section \<open>TablePrinter: lemmas\<close>












lemma mapM_ok:
  assumes "\<forall>x \<in> set xs. \<exists>y. f x = Inr y"
  shows "\<exists>ys. mapM f xs = Inr ys \<and> length ys = length xs"
  using assms by (induction xs) auto

lemma row_cells_ok:
  assumes "length row \<le> length ws" "length row \<le> length (column_align self)"
  shows "\<exists>cs. row_cells self ws (k, row) = Inr cs \<and> length cs = length row"
proof -
  have "\<exists>cs. mapM (\<lambda>(i, c). segment self ws colr i (cell_str c)) (enumerate 0 row) = Inr cs \<and>
          length cs = length (enumerate 0 row)" for colr
    using assms by (intro mapM_ok) (auto simp: in_set_enumerate_eq segment_def Let_def)
  then show ?thesis by (simp add: row_cells_def Let_def)
qed

lemma mapM_rows:
  assumes "\<forall>x \<in> set xs. \<exists>y. f x = Inr y \<and> length y = length (snd x)"
  shows "\<exists>ys. mapM f xs = Inr ys \<and> map length ys = map (length \<circ> snd) xs"
  using assms by (induction xs) auto

lemma data_rows_ok:
  assumes "length (headers self) \<le> length (column_align self)"
    and "\<forall>row \<in> set (rows self). length row \<le> length (headers self)"
  shows "\<exists>css. data_rows self = Inr css \<and> map length css = map length (rows self)"
proof -
  have "\<forall>x \<in> set (enumerate 0 (rows self)).
          \<exists>y. row_cells self (col_widths self) x = Inr y \<and> length y = length (snd x)"
  proof
    fix x assume x: "x \<in> set (enumerate 0 (rows self))"
    obtain k row where kr: "x = (k, row)" by (cases x)
    with x have "row \<in> set (rows self)" by (auto simp: in_set_enumerate_eq)
    with assms have "length row \<le> length (col_widths self)"
      "length row \<le> length (column_align self)"
      by (auto simp: col_widths_def)
    from row_cells_ok [OF this] kr
    show "\<exists>y. row_cells self (col_widths self) x = Inr y \<and> length y = length (snd x)" by simp
  qed
  from mapM_rows [OF this] show ?thesis
    by (simp add: data_rows_def flip: map_map)
qed

lemma header_cells_ok:
  assumes "length (headers self) \<le> length (column_align self)"
  shows "\<exists>hs. header_cells self (col_widths self) = Inr hs \<and> length hs = length (headers self)"
proof -
  have "\<exists>hs. header_cells self (col_widths self) = Inr hs \<and>
          length hs = length (enumerate 0 (headers self))"
    unfolding header_cells_def using assms
    by (intro mapM_ok) (auto simp: in_set_enumerate_eq segment_def Let_def col_widths_def)
  then show ?thesis by simp
qed

lemma replicate_num: "replicate (numeral k) x = x # replicate (pred_numeral k) x"
  by (simp add: numeral_eq_Suc)

lemmas table_eval =
  TablePrinter_init_def add_row_def col_widths_def col_width_def str_cell_def cell_str_def
  header_cells_def data_rows_def row_cells_def segment_def align_text_def ljust_def rjust_def
  center_def spaces_def ascii_def RED_def RESET_def CYAN_def BOLD_def DIM_def sgr_def ESC_def
  is_param_def visible_len_def Let_def replicate_num

section \<open>TablePrinter: the claims\<close>




text \<open>
  C2, as the code has it. When the alignment list covers the headers and no row is
  longer than the headers, \<open>TablePrinter.print\<close> returns, and every data row is rendered
  with exactly one cell per cell of the row: a short row is not padded.
\<close>

theorem C2_rows_render_their_cells:
  assumes "length (headers self) \<le> length (column_align self)"
    and "\<forall>row \<in> set (rows self). length row \<le> length (headers self)"
  shows "\<exists>ls css before after.
           print_table self = Inr ls \<and> data_rows self = Inr css \<and>
           ls = before @
                map (line_of (case border_styles (border_style self) of
                                Some b \<Rightarrow> b | None \<Rightarrow> border_simple)) css @
                after \<and>
           map length css = map length (rows self)"
proof -
  from header_cells_ok [OF assms(1)]
  obtain hs where h: "header_cells self (col_widths self) = Inr hs" by blast
  from data_rows_ok [OF assms]
  obtain css where c: "data_rows self = Inr css" "map length css = map length (rows self)"
    by blast
  define b where "b = (case border_styles (border_style self) of
                         Some b \<Rightarrow> b | None \<Rightarrow> border_simple)"
  define top where "top =
    (if top_left b \<noteq> []
     then [rule_line (top_left b) (horizontal b) (top_cross b) (top_right b) (col_widths self)]
     else [])"
  define sep where "sep =
    (if left_cross b \<noteq> []
     then [rule_line (left_cross b) (horizontal b) (cross b) (right_cross b) (col_widths self)]
     else [])"
  define bottom where "bottom =
    (if bottom_left b \<noteq> []
     then [rule_line (bottom_left b) (horizontal b) (bottom_cross b) (bottom_right b)
             (col_widths self)]
     else [])"
  have "print_table self = Inr ((top @ [line_of b hs] @ sep) @ map (line_of b) css @ bottom)"
    by (simp add: print_table_def Let_def h c(1) b_def top_def sep_def bottom_def)
  with c show ?thesis unfolding b_def by blast
qed

theorem C2_rows_render_their_cells_witness:
  "length (headers table_short_row) \<le> length (column_align table_short_row) \<and>
   rows table_short_row = [[Val (ascii ''1'')]] \<and>
   length [Val (ascii ''1'')] \<le> length (headers table_short_row) \<and>
   (\<exists>ls css. print_table table_short_row = Inr ls \<and> data_rows table_short_row = Inr css \<and>
      map length css = map length (rows table_short_row))"
proof -
  have a: "length (headers table_short_row) \<le> length (column_align table_short_row)"
    by (simp add: table_short_row_def TablePrinter_init_def add_row_def)
  have r: "rows table_short_row = [[Val (ascii ''1'')]]"
    by (simp add: table_short_row_def TablePrinter_init_def add_row_def)
  have l: "length [Val (ascii ''1'')] \<le> length (headers table_short_row)"
    by (simp add: table_short_row_def TablePrinter_init_def add_row_def)
  from r l have b: "\<forall>row \<in> set (rows table_short_row). length row \<le> length (headers table_short_row)"
    by simp
  from C2_rows_render_their_cells [OF a b] a r l show ?thesis by blast
qed

text \<open>
  C2 as stated fails both ways: with two headers, the row of one cell is rendered with
  one cell, and the row of three cells ends \<open>print\<close> with an \<open>IndexError\<close>.
\<close>

theorem C2_counterexample:
  "length (headers table_short_row) = 2 \<and>
   map_sum id (map length) (data_rows table_short_row) = Inr [1] \<and>
   print_table table_long_row = Inl IndexError"
  by (simp add: table_short_row_def table_long_row_def print_table_def border_styles_def
      border_simple_def table_eval)

section \<open>ArtService.box: lemmas\<close>

lemma match_sgr_not_esc: "c \<noteq> ESC \<Longrightarrow> match_sgr (c # cs) = None"
  by (cases cs) simp_all

lemma strip_no_esc: "ESC \<notin> set x \<Longrightarrow> strip_colors (x @ y) = x @ strip_colors y"
  by (induction x) (simp_all add: match_sgr_not_esc)

lemma style_token_hd:
  assumes "strip_colors t = []" "t \<noteq> []"
  shows "hd t = ESC"
proof (rule ccontr)
  assume n: "hd t \<noteq> ESC"
  from assms(2) obtain c cs where t: "t = c # cs" by (cases t) auto
  with n have "match_sgr t = None" by (simp add: match_sgr_not_esc)
  with assms(1) t show False by simp
qed

lemma foldl_max_ge: "foldl max (a::nat) xs \<ge> a"
  by (induction xs arbitrary: a) (auto intro: order_trans [OF max.cobounded1])

lemma foldl_max_mem: "x \<in> set xs \<Longrightarrow> x \<le> foldl max (a::nat) xs"
proof (induction xs arbitrary: a)
  case Nil
  then show ?case by simp
next
  case (Cons y ys)
  show ?case
  proof (cases "x = y")
    case True
    have "y \<le> max a y" by simp
    also have "\<dots> \<le> foldl max (max a y) ys" by (rule foldl_max_ge)
    finally show ?thesis using True by simp
  next
    case False
    with Cons show ?thesis by simp
  qed
qed

lemma glyph_facts:
  "ESC \<notin> set BOX_VERTICAL" "ESC \<notin> set BOX_HORIZONTAL" "ESC \<notin> set BOX_TOP_LEFT"
  "ESC \<notin> set BOX_TOP_RIGHT" "ESC \<notin> set BOX_BOTTOM_LEFT" "ESC \<notin> set BOX_BOTTOM_RIGHT"
  "BOX_VERTICAL \<noteq> []" "hd BOX_VERTICAL = 8218"
  by (simp_all add: BOX_VERTICAL_def BOX_HORIZONTAL_def BOX_TOP_LEFT_def BOX_TOP_RIGHT_def
      BOX_BOTTOM_LEFT_def BOX_BOTTOM_RIGHT_def ESC_def)

lemma esc_mul: "ESC \<notin> set s \<Longrightarrow> ESC \<notin> set (mul s n)"
  by (auto simp: mul_def)

lemma length_mul: "length (mul s n) = nat n * length s"
  by (simp add: mul_def length_concat sum_list_replicate)

lemma strip_plain: "ESC \<notin> set x \<Longrightarrow> strip_colors x = x"
  using strip_no_esc [of x "[]"] by simp

lemma visible_border:
  assumes "is_style_token bc" "ESC \<notin> set l" "ESC \<notin> set r"
  shows "visible_len (bc @ l @ mul BOX_HORIZONTAL n @ r) =
         length l + nat n * length BOX_HORIZONTAL + length r"
proof -
  have "ESC \<notin> set (l @ mul BOX_HORIZONTAL n @ r)"
    using assms esc_mul [OF glyph_facts(2), of n] by simp
  from strip_plain [OF this] assms(1) show ?thesis
    by (simp add: visible_len_def is_style_token_def strip_token_prefix length_mul)
qed

lemma tail_safe:
  assumes "is_style_token bc"
  shows "spaces q @ bc @ BOX_VERTICAL \<noteq> [] \<and> hd (spaces q @ bc @ BOX_VERTICAL) \<noteq> 91 \<and>
         hd (spaces q @ bc @ BOX_VERTICAL) \<noteq> 109 \<and> \<not> is_param (hd (spaces q @ bc @ BOX_VERTICAL))"
proof (cases "nat q")
  case (Suc k)
  then show ?thesis by (simp add: spaces_def is_param_def)
next
  case 0
  show ?thesis
  proof (cases "bc = []")
    case True
    with 0 show ?thesis by (simp add: spaces_def glyph_facts is_param_def)
  next
    case False
    with assms have "hd bc = ESC" by (simp add: is_style_token_def style_token_hd)
    with False 0 show ?thesis by (simp add: spaces_def is_param_def ESC_def)
  qed
qed

lemma visible_content:
  assumes "is_style_token bc" "0 \<le> p" "int (visible_len line) \<le> m"
  shows "visible_len (box_content m p bc line) = length BOX_VERTICAL + nat (m + p * 2) + length BOX_VERTICAL"
proof -
  define q where "q = p + (m - int (length (strip_colors line)))"
  have sp: "ESC \<notin> set (spaces k)" for k
    by (simp add: spaces_def ESC_def)
  have e0: "ESC \<notin> set (BOX_VERTICAL @ spaces p)" "ESC \<notin> set (spaces q)"
    by (simp_all add: glyph_facts sp)
  from tail_safe [OF assms(1), of q]
  have s: "strip_colors (line @ spaces q @ bc @ BOX_VERTICAL) =
           strip_colors line @ strip_colors (spaces q @ bc @ BOX_VERTICAL)"
    by (intro strip_append_safe) simp_all
  have t: "strip_colors (spaces q @ bc @ BOX_VERTICAL) = spaces q @ BOX_VERTICAL"
    using assms(1) by (simp add: strip_no_esc [OF e0(2)] is_style_token_def strip_token_prefix
        strip_plain glyph_facts)
  have "strip_colors (box_content m p bc line) =
        strip_colors ((BOX_VERTICAL @ spaces p) @ line @ spaces q @ bc @ BOX_VERTICAL)"
    using assms(1) by (simp add: box_content_def Let_def q_def is_style_token_def strip_token_prefix)
  also have "\<dots> = (BOX_VERTICAL @ spaces p) @ strip_colors line @ spaces q @ BOX_VERTICAL"
    by (simp only: strip_no_esc [OF e0(1)] s t)
  finally show ?thesis
    using assms(2,3) by (simp add: visible_len_def spaces_def q_def)
qed

text \<open>
  The widths in general, for a border color that is a style token, a padding that is not
  negative and no title: every content line has the visible length
  \<open>max_len + 2 * padding\<close> plus two vertical glyphs, and both borders have
  \<open>max_len + 2 * padding + 2\<close> horizontal glyphs plus two corners.
\<close>

lemma box_widths:
  assumes "is_style_token bc" "0 \<le> p"
  shows "\<exists>top content bottom.
           box_lines text [] p bc tc = top # content @ [bottom] \<and>
           length content = length (split_nl text) \<and>
           (\<forall>l \<in> set content.
              int (visible_len l) = box_max_len (split_nl text) + p * 2 + 2 * int (length BOX_VERTICAL)) \<and>
           int (visible_len top) =
             int (length BOX_TOP_LEFT) +
             (box_max_len (split_nl text) + p * 2 + 2) * int (length BOX_HORIZONTAL) +
             int (length BOX_TOP_RIGHT) \<and>
           int (visible_len bottom) =
             int (length BOX_BOTTOM_LEFT) +
             (box_max_len (split_nl text) + p * 2 + 2) * int (length BOX_HORIZONTAL) +
             int (length BOX_BOTTOM_RIGHT)"
proof -
  define m where "m = box_max_len (split_nl text)"
  have m0: "0 \<le> m" by (simp add: m_def box_max_len_def)
  have c: "int (visible_len l) = m + p * 2 + 2 * int (length BOX_VERTICAL)"
    if "l \<in> set (map (box_content m p bc) (split_nl text))" for l
  proof -
    from that obtain line where l: "line \<in> set (split_nl text)" "l = box_content m p bc line"
      by auto
    from l(1) have "int (visible_len line) \<le> m"
      unfolding m_def box_max_len_def visible_len_def
      by (simp add: foldl_max_mem)
    from visible_content [OF assms this] m0 assms(2) show ?thesis
      by (simp add: l(2))
  qed
  have t: "int (visible_len (box_top m [] p bc tc)) =
             int (length BOX_TOP_LEFT) + (m + p * 2 + 2) * int (length BOX_HORIZONTAL) +
             int (length BOX_TOP_RIGHT)"
    using m0 assms(2)
    by (simp add: box_top_def visible_border [OF assms(1) glyph_facts(3) glyph_facts(4)])
  have b: "int (visible_len (box_bottom m p bc)) =
             int (length BOX_BOTTOM_LEFT) + (m + p * 2 + 2) * int (length BOX_HORIZONTAL) +
             int (length BOX_BOTTOM_RIGHT)"
    using m0 assms(2)
    by (simp add: box_bottom_def visible_border [OF assms(1) glyph_facts(5) glyph_facts(6)])
  have "box_lines text [] p bc tc =
        box_top m [] p bc tc # map (box_content m p bc) (split_nl text) @ [box_bottom m p bc]"
    by (simp add: box_lines_def Let_def m_def)
  with c t b show ?thesis unfolding m_def [symmetric] by auto
qed

section \<open>ArtService.box: the claim\<close>

text \<open>
  C10 fails on the code. For \<open>box("hi")\<close> with the default padding 1, the borders hold
  a corner, six horizontal glyphs and a corner, and the content line holds a vertical
  glyph, the four characters of \<open>" hi "\<close> and a vertical glyph: the content line is
  shorter than the borders, whatever the length of a glyph.
\<close>

theorem C10_box_content_narrower:
  "map visible_len (box_lines (ascii ''hi'') [] 1 CYAN (CYAN @ BOLD)) =
     [length BOX_TOP_LEFT + 6 * length BOX_HORIZONTAL + length BOX_TOP_RIGHT,
      length BOX_VERTICAL + 4 + length BOX_VERTICAL,
      length BOX_BOTTOM_LEFT + 6 * length BOX_HORIZONTAL + length BOX_BOTTOM_RIGHT] \<and>
   visible_len (box_lines (ascii ''hi'') [] 1 CYAN (CYAN @ BOLD) ! 1) <
   visible_len (box_lines (ascii ''hi'') [] 1 CYAN (CYAN @ BOLD) ! 2)"
  by (simp add: box_lines_def box_top_def box_bottom_def box_content_def box_max_len_def mul_def
      spaces_def BOX_TOP_LEFT_def BOX_TOP_RIGHT_def BOX_BOTTOM_LEFT_def BOX_BOTTOM_RIGHT_def
      BOX_HORIZONTAL_def BOX_VERTICAL_def ascii_def CYAN_def BOLD_def sgr_def ESC_def is_param_def
      visible_len_def Let_def replicate_num)

end
